theory Spec2Isabelle
  imports Complex_Main "HOL-Library.Word" "HOL-Library.Product_Lexorder"
    "HOL-Library.Multiset" "HOL-Library.Sublist"
begin

section \<open>Front end: strings of the browser\<close>

text \<open>
  A JavaScript string is a sequence of UTF-16 code units; \<open>===\<close> and \<open>!==\<close> on strings
  compare these sequences. The empty string is the only falsy string.
\<close>

type_synonym js_string = "16 word list"

text \<open>
  \<open>String.prototype.trim\<close> removes WhiteSpace and LineTerminator code units from both
  ends: TAB, LF, VT, FF, CR, SP, NBSP, U+1680, U+2000 to U+200A, U+2028, U+2029, U+202F,
  U+205F, U+3000 and U+FEFF.
\<close>

definition is_ws :: "16 word \<Rightarrow> bool" where
  "is_ws c \<longleftrightarrow>
     c \<in> {0x9, 0xA, 0xB, 0xC, 0xD, 0x20, 0xA0, 0x1680, 0x2028, 0x2029, 0x202F, 0x205F,
          0x3000, 0xFEFF}
     \<or> (0x2000 \<le> c \<and> c \<le> 0x200A)"

definition trim :: "js_string \<Rightarrow> js_string" where
  "trim s = rev (dropWhile is_ws (rev (dropWhile is_ws s)))"

definition truthy :: "js_string \<Rightarrow> bool" where
  "truthy s \<longleftrightarrow> s \<noteq> []"

subsection \<open>QueryInput (components/QueryInput.tsx)\<close>

text \<open>
  The component holds \<open>query\<close> (its \<open>useState\<close>) and receives \<open>onSearch\<close> and \<open>loading\<close>.
  The callback \<open>onSearch\<close> acts on the surroundings of the component, a value of type
  \<open>'w\<close>; \<open>record_call\<close> is the callback that only writes down its argument.
\<close>

definition Enter :: js_string where
  "Enter = [0x45, 0x6E, 0x74, 0x65, 0x72]"

definition handleSearch :: "(js_string \<Rightarrow> 'w \<Rightarrow> 'w) \<Rightarrow> js_string \<Rightarrow> 'w \<Rightarrow> 'w" where
  "handleSearch onSearch query w = (if truthy (trim query) then onSearch query w else w)"

definition handleKeyPress ::
  "(js_string \<Rightarrow> 'w \<Rightarrow> 'w) \<Rightarrow> js_string \<Rightarrow> js_string \<Rightarrow> 'w \<Rightarrow> 'w" where
  "handleKeyPress onSearch key query w =
     (if key = Enter \<and> truthy (trim query) then onSearch query w else w)"

definition button_disabled :: "bool \<Rightarrow> js_string \<Rightarrow> bool" where
  "button_disabled loading query \<longleftrightarrow> loading \<or> \<not> truthy (trim query)"

definition record_call :: "js_string \<Rightarrow> js_string list \<Rightarrow> js_string list" where
  "record_call arg calls = calls @ [arg]"

subsection \<open>useSearchHistory (hooks/useSearchHistory.ts)\<close>

text \<open>
  The hook's state is the \<open>history\<close> list; \<open>saved\<close> is the entry of \<open>localStorage\<close> under
  \<open>HISTORY_KEY\<close> (\<open>JSON.stringify\<close> of a string array, read back by \<open>JSON.parse\<close>, is
  kept as the array itself; \<open>None\<close> is the removed entry).
\<close>

definition MAX_HISTORY :: nat where
  "MAX_HISTORY = 10"

record history_state =
  history :: "js_string list"
  saved :: "js_string list option"

definition addToHistory :: "js_string \<Rightarrow> history_state \<Rightarrow> history_state" where
  "addToHistory query st =
     (let filtered = filter (\<lambda>item. item \<noteq> query) (history st);
          updated = take MAX_HISTORY (query # filtered)
      in \<lparr>history = updated, saved = Some updated\<rparr>)"

definition clearHistory :: "history_state \<Rightarrow> history_state" where
  "clearHistory st = \<lparr>history = [], saved = None\<rparr>"

subsection \<open>useSearchResults (hooks/useSearchResults.ts)\<close>

text \<open>
  \<open>SearchResult\<close> as declared in components/ResultsList.tsx; the optional fields are
  options.
\<close>

datatype result_type = norm | case_law

record SearchResult =
  res_id :: js_string
  title :: js_string
  res_type :: result_type
  description :: "js_string option"
  source :: "js_string option"
  date :: "js_string option"
  number :: "js_string option"

text \<open>
  What a \<open>catch\<close> clause can receive: an \<open>Error\<close> object with its \<open>message\<close>, or any
  other thrown value.
\<close>

datatype thrown = Error js_string | NonError

text \<open>
  The value \<open>response.json()\<close> resolves to, as far as \<open>data.results || []\<close> reads it:
  \<open>null\<close> (reading a property of it throws a TypeError, whose message is carried here),
  or a value whose \<open>results\<close> property is falsy (absent, \<open>null\<close>) or the array the
  declared type \<open>SearchResponse\<close> promises.
\<close>

datatype json_data = Nullish js_string | Data "SearchResult list option"

datatype json_outcome = JsonRejected thrown | JsonResolved json_data

text \<open>The settled \<open>fetch\<close> promise: rejected, or a response with \<open>ok\<close>, \<open>status\<close> and body.\<close>

datatype fetch_outcome = FetchRejected thrown | Response bool nat json_outcome

record search_state =
  results :: "SearchResult list"
  loading :: bool
  error :: "js_string option"

fun digits :: "nat \<Rightarrow> js_string" where
  "digits n =
     (if n < 10 then [of_nat (48 + n)] else digits (n div 10) @ [of_nat (48 + n mod 10)])"

text \<open>The template literal of the thrown server error: the Cyrillic prefix, then the status.\<close>

definition server_error_message :: "nat \<Rightarrow> js_string" where
  "server_error_message status =
     [0x41E, 0x448, 0x438, 0x431, 0x43A, 0x430, 0x20,
      0x441, 0x435, 0x440, 0x432, 0x435, 0x440, 0x430, 0x3A, 0x20] @ digits status"

text \<open>The fallback message of the \<open>catch\<close> clause.\<close>

definition generic_error_message :: js_string where
  "generic_error_message =
     [0x41F, 0x440, 0x43E, 0x438, 0x437, 0x43E, 0x448, 0x43B, 0x430, 0x20,
      0x43E, 0x448, 0x438, 0x431, 0x43A, 0x430]"

text \<open>The \<open>try\<close> block: the results to set, or the value thrown inside it.\<close>

fun try_block :: "fetch_outcome \<Rightarrow> thrown + SearchResult list" where
  "try_block (FetchRejected t) = Inl t"
| "try_block (Response ok status body) =
     (if \<not> ok then Inl (Error (server_error_message status))
      else case body of
             JsonRejected t \<Rightarrow> Inl t
           | JsonResolved (Nullish m) \<Rightarrow> Inl (Error m)
           | JsonResolved (Data rs) \<Rightarrow> Inr (case rs of None \<Rightarrow> [] | Some r \<Rightarrow> r))"

definition catch_message :: "thrown \<Rightarrow> js_string" where
  "catch_message err = (case err of Error m \<Rightarrow> m | NonError \<Rightarrow> generic_error_message)"

text \<open>
  \<open>search(query)\<close> is asynchronous. It updates the state in two stretches, each of which
  runs without interruption: the start, up to the call of \<open>fetch\<close>, and the end, from
  the moment the last awaited promise settles to the \<open>finally\<close> clause (after a status that
  is not ok the \<open>throw\<close>, the \<open>catch\<close> and the \<open>finally\<close> run at once; after an ok status
  no state is touched before the body has settled). Between the two stretches the hook
  is free, and another call of \<open>search\<close> can run its own stretches: the history sidebar
  starts a search whether one is under way or not.
\<close>

definition search_begin :: "search_state \<Rightarrow> search_state" where
  "search_begin st =
     (let st1 = st\<lparr>loading := True\<rparr>;
          st2 = st1\<lparr>error := None\<rparr>
      in st2)"

definition search_end :: "fetch_outcome \<Rightarrow> search_state \<Rightarrow> search_state" where
  "search_end outcome st =
     (let st3 = (case try_block outcome of
                   Inr rs \<Rightarrow> st\<lparr>results := rs\<rparr>
                 | Inl err \<Rightarrow> (st\<lparr>error := Some (catch_message err)\<rparr>)\<lparr>results := []\<rparr>)
      in st3\<lparr>loading := False\<rparr>)"

text \<open>
  A call of \<open>search\<close> during which no other call updates the state. \<open>api\<close> is the server
  as the hook sees it: what the POST of a query to \<open>/api/search\<close> settles to.
\<close>

definition search ::
  "(js_string \<Rightarrow> fetch_outcome) \<Rightarrow> js_string \<Rightarrow> search_state \<Rightarrow> search_state" where
  "search api query st = search_end (api query) (search_begin st)"

text \<open>
  Calls that overlap: a schedule lists, in the order in which they run, the start of the
  call for a query and the end of the call for a query.
\<close>

datatype stretch = Started js_string | Settled js_string

fun play ::
  "(js_string \<Rightarrow> fetch_outcome) \<Rightarrow> stretch list \<Rightarrow> search_state \<Rightarrow> search_state" where
  "play api [] st = st"
| "play api (Started query # schedule) st = play api schedule (search_begin st)"
| "play api (Settled query # schedule) st = play api schedule (search_end (api query) st)"

definition clearResults :: "search_state \<Rightarrow> search_state" where
  "clearResults st = (st\<lparr>results := []\<rparr>)\<lparr>error := None\<rparr>"

text \<open>The request succeeded: the \<open>try\<close> block ran to its end.\<close>

fun request_succeeded :: "fetch_outcome \<Rightarrow> bool" where
  "request_succeeded (FetchRejected t) = False"
| "request_succeeded (Response ok status body) =
     (ok \<and> (case body of
               JsonRejected t \<Rightarrow> False
             | JsonResolved (Nullish m) \<Rightarrow> False
             | JsonResolved (Data rs) \<Rightarrow> True))"

definition response_results :: "fetch_outcome \<Rightarrow> SearchResult list" where
  "response_results outcome =
     (case outcome of
        Response ok status (JsonResolved (Data (Some rs))) \<Rightarrow> rs
      | _ \<Rightarrow> [])"

section \<open>Case-law search with fallback and cache (notes on the data sources, 4 and 5)\<close>

text \<open>
  Python text is a \<open>string\<close>. An exception is kept with its message. An empty list is
  falsy, every other list is truthy.
\<close>

datatype exn = Exception string

text \<open>
  A found case: the parser of kad.arbitr.ru yields case number, court, parties and
  summary; the parsers of the alternative sites yield title, url and date.
\<close>

datatype case_item =
  KadCase string string "string list" string
| SiteDoc string string string

type_synonym cases = "case_item list"

text \<open>The sources in the order of \<open>SOURCES_PRIORITY\<close>.\<close>

datatype source_name = kad_arbitr_ru | sudact_ru | rospravosudie_com

definition SOURCES_PRIORITY :: "source_name list" where
  "SOURCES_PRIORITY = [kad_arbitr_ru, sudact_ru, rospravosudie_com]"

text \<open>
  The Redis store of scripts/cache.py: a key maps to the second at which it expires and
  the stored value. \<open>setex key ttl value\<close> at second \<open>now\<close> keeps the key until
  \<open>now + ttl\<close>; \<open>get\<close> yields nothing for a missing or expired key. The stored text is
  \<open>json.dumps\<close> of the list and \<open>json.loads\<close> reads it back, so the list itself stands
  for it. The store is taken to be reachable.
\<close>

type_synonym redis = "string \<rightharpoonup> nat \<times> cases"

definition setex :: "string \<Rightarrow> nat \<Rightarrow> cases \<Rightarrow> nat \<Rightarrow> redis \<Rightarrow> redis" where
  "setex key ttl val now r = r(key \<mapsto> (now + ttl, val))"

definition redis_get :: "string \<Rightarrow> nat \<Rightarrow> redis \<Rightarrow> cases option" where
  "redis_get key now r =
     (case r key of
        None \<Rightarrow> None
      | Some (expires, val) \<Rightarrow> if now < expires then Some val else None)"

definition DEFAULT_TTL :: nat where
  "DEFAULT_TTL = 3600"

definition cache_key :: "string \<Rightarrow> string" where
  "cache_key query = ''search:'' @ query"

definition cache_search_result :: "string \<Rightarrow> cases \<Rightarrow> nat \<Rightarrow> nat \<Rightarrow> redis \<Rightarrow> redis" where
  "cache_search_result query found ttl now r = setex (cache_key query) ttl found now r"

definition get_cached_result :: "string \<Rightarrow> nat \<Rightarrow> redis \<Rightarrow> cases option" where
  "get_cached_result query now r = redis_get (cache_key query) now r"

text \<open>
  The surroundings of a search: the store, and the outbound requests made so far, in
  order.
\<close>

record world =
  cache :: redis
  requests :: "source_name list"

definition request :: "source_name \<Rightarrow> world \<Rightarrow> world" where
  "request src w = w\<lparr>requests := requests w @ [src]\<rparr>"

text \<open>
  \<open>KadParser.search_cases\<close> with the cache added (section 5.2), an \<open>async def\<close> that its
  callers await. \<open>site\<close> is what \<open>await self._search(query)\<close> yields for a query, a list
  of cases or an exception. The call starts at second \<open>now\<close>, when the cache is checked;
  the search takes \<open>took\<close> seconds, so what it found is stored at \<open>now + took\<close>. After
  the check of the cache come the search itself, the store of what it found, and the
  return.
\<close>

definition search_and_store ::
  "(string \<Rightarrow> exn + cases) \<Rightarrow> string \<Rightarrow> nat \<Rightarrow> nat \<Rightarrow> world \<Rightarrow> (exn + cases) \<times> world" where
  "search_and_store site query now took w =
     (let w1 = request kad_arbitr_ru w in
      case site query of
        Inl e \<Rightarrow> (Inl e, w1)
      | Inr found \<Rightarrow>
          (Inr found,
           w1\<lparr>cache :=
                cache_search_result query found DEFAULT_TTL (now + took) (cache w1)\<rparr>))"

definition KadParser_search_cases ::
  "(string \<Rightarrow> exn + cases) \<Rightarrow> string \<Rightarrow> nat \<Rightarrow> nat \<Rightarrow> world \<Rightarrow> (exn + cases) \<times> world" where
  "KadParser_search_cases site query now took w =
     (case get_cached_result query now (cache w) of
        None \<Rightarrow> search_and_store site query now took w
      | Some cached \<Rightarrow>
          if cached \<noteq> [] then (Inr cached, w) else search_and_store site query now took w)"

text \<open>
  The node \<open>search_cases\<close> (section 4.2). It returns the update \<open>{"cases": ...}\<close>; the
  list under that key is the result here. The names \<open>parser\<close>, \<open>search_sudact\<close>,
  \<open>search_rospravosud\<close> and \<open>query\<close> belong to the surroundings of the node, which the
  documentation does not show: each of the three calls is an outbound request whose
  outcome, a list of cases or an exception, is given from outside. The node itself has
  no statement on the store. The three blocks follow the source: the third assigns
  \<open>cases\<close> and falls through to the last line, which returns the empty list.
\<close>

record sites =
  kad :: "exn + cases"
  sudact :: "exn + cases"
  rospravosud :: "exn + cases"

definition search_rospravosud_block :: "sites \<Rightarrow> cases \<Rightarrow> world \<Rightarrow> cases \<times> world" where
  "search_rospravosud_block env cases0 w =
     (let w1 = request rospravosudie_com w;
          cases1 = (case rospravosud env of Inl e \<Rightarrow> cases0 | Inr cs \<Rightarrow> cs)
      in ([], w1))"

definition search_sudact_block :: "sites \<Rightarrow> cases \<Rightarrow> world \<Rightarrow> cases \<times> world" where
  "search_sudact_block env cases0 w =
     (let w1 = request sudact_ru w in
      case sudact env of
        Inl e \<Rightarrow> search_rospravosud_block env cases0 w1
      | Inr cs \<Rightarrow> if cs \<noteq> [] then (cs, w1) else search_rospravosud_block env cs w1)"

definition search_cases :: "sites \<Rightarrow> world \<Rightarrow> cases \<times> world" where
  "search_cases env w =
     (let w1 = request kad_arbitr_ru w in
      case kad env of
        Inl e \<Rightarrow> search_sudact_block env [] w1
      | Inr cs \<Rightarrow> if cs \<noteq> [] then (cs, w1) else search_sudact_block env cs w1)"

section \<open>Language-model client with fallback (docs/llm-fallback-system)\<close>

text \<open>
  The code of the client (src/llm/client.py, src/llm/perplexity_client.py) is not at
  hand. The documentation describes the client as shipped: OpenRouter first, Perplexity
  as fallback, each with ``3 attempts with exponential delay'', the answer tagged with
  the provider, and on failure of both a \<open>RuntimeError\<close> that describes all errors. (The
  documentation also sketches how a third provider could be added; that sketch is a
  proposal, not the client.) The client is therefore modelled from the spec, for an
  ordered list of providers.
\<close>

text \<open>
  Modelled from the spec: \<open>LLMResponse\<close> of the missing client, the text and the name of
  the provider that produced it.
\<close>

record LLMResponse =
  content :: string
  provider :: string

text \<open>
  Modelled from the spec: a \<open>ProviderClient\<close> of the missing client. It has a name and
  the base of its backoff in seconds; \<open>respond\<close> is its backend, the answer to the
  \<open>k\<close>-th request made for a prompt within one call, a text or an exception (a timeout
  is an exception like any other).
\<close>

record ProviderClient =
  client_name :: string
  backoff_base :: nat
  respond :: "string \<Rightarrow> nat \<Rightarrow> exn + string"

text \<open>
  Modelled from the spec: what the missing client does to the outside. Each request that
  reaches a backend is written down by the backend, with the provider, the prompt and
  what the backend answered; a wait is written down with its length. The client acts on
  the outside through \<open>post\<close> and \<open>sleep\<close> only. (The rate limiter of a provider only
  delays a request and is left out.)
\<close>

datatype llm_event = Call string string "exn + string" | Sleep nat

definition post ::
  "ProviderClient \<Rightarrow> string \<Rightarrow> nat \<Rightarrow> llm_event list \<Rightarrow> (exn + string) \<times> llm_event list" where
  "post c prompt k seen =
     (respond c prompt k, seen @ [Call (client_name c) prompt (respond c prompt k)])"

definition sleep :: "nat \<Rightarrow> llm_event list \<Rightarrow> llm_event list" where
  "sleep seconds seen = seen @ [Sleep seconds]"

text \<open>Modelled from the spec: the fixed bound of attempts of the missing client.\<close>

definition MAX_ATTEMPTS :: nat where
  "MAX_ATTEMPTS = 3"

text \<open>
  Modelled from the spec: the retry loop inside a provider client of the missing client.
  A request is made; on failure it is repeated, after a wait that doubles each time,
  until the bound of attempts is reached, and then the last failure is raised.
\<close>

fun attempt ::
  "ProviderClient \<Rightarrow> string \<Rightarrow> nat \<Rightarrow> nat \<Rightarrow> llm_event list \<Rightarrow>
   (exn + string) \<times> llm_event list" where
  "attempt c prompt made 0 seen = post c prompt made seen"
| "attempt c prompt made (Suc retries) seen =
     (case post c prompt made seen of
        (Inr text, seen1) \<Rightarrow> (Inr text, seen1)
      | (Inl e, seen1) \<Rightarrow>
          attempt c prompt (Suc made) retries (sleep (backoff_base c * 2 ^ made) seen1))"

text \<open>
  Modelled from the spec: \<open>generate\<close> of one provider client of the missing client, the
  retried request with the answer tagged by the name of the provider.
\<close>

definition client_generate ::
  "ProviderClient \<Rightarrow> string \<Rightarrow> llm_event list \<Rightarrow> (exn + LLMResponse) \<times> llm_event list" where
  "client_generate c prompt seen =
     (case attempt c prompt 0 (MAX_ATTEMPTS - 1) seen of
        (Inr text, seen1) \<Rightarrow> (Inr \<lparr>content = text, provider = client_name c\<rparr>, seen1)
      | (Inl e, seen1) \<Rightarrow> (Inl e, seen1))"

text \<open>
  Modelled from the spec: the error of the missing client when every provider is
  exhausted. It lists, in the order of the providers, each provider that was tried with
  its last failure.
\<close>

datatype llm_error = ProviderUnavailable "(string \<times> exn) list"

text \<open>
  Modelled from the spec: the failover of the missing client. The providers are tried in
  order, each with the retry loop, until one answers; the failures met on the way are
  collected for the error.
\<close>

fun try_providers ::
  "ProviderClient list \<Rightarrow> string \<Rightarrow> (string \<times> exn) list \<Rightarrow> llm_event list \<Rightarrow>
   (llm_error + LLMResponse) \<times> llm_event list" where
  "try_providers [] prompt failures seen = (Inl (ProviderUnavailable failures), seen)"
| "try_providers (c # cs) prompt failures seen =
     (case client_generate c prompt seen of
        (Inr r, seen1) \<Rightarrow> (Inr r, seen1)
      | (Inl e, seen1) \<Rightarrow> try_providers cs prompt (failures @ [(client_name c, e)]) seen1)"

text \<open>
  Modelled from the spec: \<open>MultiProviderClient.generate\<close> of the missing client, over
  the ordered list of providers, the primary first. Without \<open>useFallback\<close> only the
  primary is tried.
\<close>

definition generate ::
  "ProviderClient list \<Rightarrow> string \<Rightarrow> bool \<Rightarrow> llm_event list \<Rightarrow>
   (llm_error + LLMResponse) \<times> llm_event list" where
  "generate providers prompt use_fallback seen =
     try_providers (if use_fallback then providers else take 1 providers) prompt [] seen"

text \<open>A provider fails every attempt of a call, or answers within the bound.\<close>

definition fails_all :: "ProviderClient \<Rightarrow> string \<Rightarrow> bool" where
  "fails_all c prompt \<longleftrightarrow> list_all (\<lambda>k. isl (respond c prompt k)) [0..<MAX_ATTEMPTS]"

definition succeeds :: "ProviderClient \<Rightarrow> string \<Rightarrow> bool" where
  "succeeds c prompt \<longleftrightarrow> list_ex (\<lambda>k. \<not> isl (respond c prompt k)) [0..<MAX_ATTEMPTS]"

text \<open>
  What is written down during a call to a provider that fails every attempt: three
  requests, with a wait of one backoff base and a wait of two between them.
\<close>

definition exhausted :: "ProviderClient \<Rightarrow> string \<Rightarrow> llm_event list" where
  "exhausted c prompt =
     [Call (client_name c) prompt (respond c prompt 0), Sleep (backoff_base c),
      Call (client_name c) prompt (respond c prompt 1), Sleep (2 * backoff_base c),
      Call (client_name c) prompt (respond c prompt 2)]"

text \<open>The requests to a provider of a given name among the events.\<close>

fun calls_to :: "string \<Rightarrow> llm_event list \<Rightarrow> nat" where
  "calls_to name [] = 0"
| "calls_to name (Call n prompt answer # evs) =
     (if n = name then Suc (calls_to name evs) else calls_to name evs)"
| "calls_to name (Sleep seconds # evs) = calls_to name evs"

section \<open>The workflow of the agent (docs/langgraph-integration, docs/langgraph-audit)\<close>

text \<open>
  \<open>AgentState\<close> is a \<open>TypedDict\<close> with \<open>total=False\<close>: every key may be absent, which is
  \<open>None\<close> here. A norm is a dictionary of texts.
\<close>

type_synonym norm = "(string \<times> string) list"

record AgentState =
  query :: "string option"
  law_type :: "string option"
  norms :: "norm list option"
  cases :: "cases option"
  answer :: "string option"
  trace :: "string list option"
  error :: "string option"

text \<open>
  A node receives the state and works on it in place. It returns the state, or raises
  and leaves the state as it was at that moment: the result is the state left behind
  and the exception, if any.
\<close>

type_synonym stage = "AgentState \<Rightarrow> AgentState \<times> exn option"





text \<open>
  \<open>search_cases\<close> as the documentation shows it (section 4.2 of the notes on the data
  sources) is of another shape: it returns only the update \<open>{"cases": ...}\<close>, which the
  graph merges into the state; it has no line for the trace and it raises nothing.
\<close>

definition search_cases_node :: "sites \<Rightarrow> world \<Rightarrow> stage" where
  "search_cases_node env w s = (s\<lparr>cases := Some (fst (search_cases env w))\<rparr>, None)"


text \<open>
  \<open>graph.invoke(state)\<close> as far as the documentation determines it: the nodes are called
  along the edges, each on the state the node before it returned, up to the first node
  that raises, if any. The result is the state then and the exception. What becomes of
  the run after that is not documented.
\<close>

fun invoke_until_raise :: "stage list \<Rightarrow> AgentState \<Rightarrow> AgentState \<times> exn option" where
  "invoke_until_raise [] s = (s, None)"
| "invoke_until_raise (f # fs) s =
     (case f s of
        (s1, Some e) \<Rightarrow> (s1, Some e)
      | (s1, None) \<Rightarrow> invoke_until_raise fs s1)"



definition returns :: "stage \<Rightarrow> bool" where
  "returns logic \<longleftrightarrow> (\<forall>s. snd (logic s) = None)"

subsection \<open>The engine of the spec\<close>

text \<open>
  Modelled from the spec: how the engine records a failure (src/graph/workflow.py and
  the invocation of the compiled graph are not at hand). The description, with the name
  of the stage, is written to \<open>error\<close> of the state, after the failures recorded before.
\<close>

definition record_failure :: "string \<Rightarrow> string \<Rightarrow> AgentState \<Rightarrow> AgentState" where
  "record_failure name msg s =
     s\<lparr>error := Some ((case error s of None \<Rightarrow> [] | Some earlier \<Rightarrow> earlier @ ''; '')
                        @ name @ '': '' @ msg)\<rparr>"

text \<open>
  Modelled from the spec: one step of the missing engine. The stage is called on the
  running state; when it raises, the failure is recorded in the state it left behind and
  the run goes on from there. This holds for every stage: the spec calls the exhaustion
  of the language-model chain fatal for the run, in that no answer can be generated, and
  has the terminal state reached after the last declared stage all the same.
\<close>

definition run_stage :: "string \<times> stage \<Rightarrow> AgentState \<Rightarrow> AgentState" where
  "run_stage st s =
     (case snd st s of
        (s1, None) \<Rightarrow> s1
      | (s1, Some (Exception msg)) \<Rightarrow> record_failure (fst st) msg s1)"

text \<open>
  Modelled from the spec: \<open>run(initialState)\<close> of the missing engine, which calls the
  declared stages one after the other and yields the final state.
\<close>

definition run :: "(string \<times> stage) list \<Rightarrow> AgentState \<Rightarrow> AgentState" where
  "run stages s = foldl (\<lambda>running st. run_stage st running) s stages"








section \<open>Hybrid retrieval\<close>

text \<open>
  Modelled from the spec: the whole retriever (src/rag/retriever.py is not at hand; the
  documentation only names ``Hybrid Search (BM25 + Vector)''). The lexical and the vector
  scoring of a chunk for a query, the normalisation of a score within its candidate list
  and the two weights are given from outside; scores are real numbers. A chunk outside a
  candidate list counts with the normalised score 0 in it.
\<close>

record Chunk =
  chunk_id :: nat
  chunk_text :: string
  embeddingVector :: "real list"
  sourceCode :: string
  articleNumber :: "string option"
  offset :: nat

text \<open>
  Modelled from the spec: the missing retriever as a value, the indexed chunks and the
  configuration.
\<close>

record retriever =
  corpus :: "Chunk list"
  lexical_score :: "string \<Rightarrow> Chunk \<Rightarrow> real"
  vector_score :: "string \<Rightarrow> Chunk \<Rightarrow> real"
  normalize :: "real list \<Rightarrow> real \<Rightarrow> real"
  weight_lexical :: real
  weight_vector :: real
  candidate_width :: nat

text \<open>
  Modelled from the spec: a candidate list of the missing retriever, the chunks by
  descending score, cut to the candidate width.
\<close>

definition ranking :: "(Chunk \<Rightarrow> real) \<Rightarrow> nat \<Rightarrow> Chunk list \<Rightarrow> Chunk list" where
  "ranking score k chunks = take k (sort_key (\<lambda>c. - score c) chunks)"

text \<open>
  Modelled from the spec: merging of the candidates of the missing retriever by chunk id;
  a chunk found by both rankings is kept once.
\<close>

definition merge_by_id :: "Chunk list \<Rightarrow> Chunk list \<Rightarrow> Chunk list" where
  "merge_by_id xs ys = xs @ filter (\<lambda>c. chunk_id c \<notin> set (map chunk_id xs)) ys"

text \<open>
  Modelled from the spec: the normalised score of a chunk of the missing retriever within
  a candidate list.
\<close>

definition normalized ::
  "(real list \<Rightarrow> real \<Rightarrow> real) \<Rightarrow> (Chunk \<Rightarrow> real) \<Rightarrow> Chunk list \<Rightarrow> Chunk \<Rightarrow> real" where
  "normalized nrm score cands c =
     (if chunk_id c \<in> set (map chunk_id cands) then nrm (map score cands) (score c) else 0)"

text \<open>
  Modelled from the spec: the final score of the missing retriever, the weighted
  combination of the two normalised scores.
\<close>

definition final_score :: "retriever \<Rightarrow> string \<Rightarrow> Chunk \<Rightarrow> real" where
  "final_score r q c =
     weight_lexical r *
       normalized (normalize r) (lexical_score r q)
         (ranking (lexical_score r q) (candidate_width r) (corpus r)) c
     + weight_vector r *
       normalized (normalize r) (vector_score r q)
         (ranking (vector_score r q) (candidate_width r) (corpus r)) c"

text \<open>
  Modelled from the spec: \<open>retrieve(query, topN)\<close> of the missing retriever. The merged
  candidates by descending final score, the earlier offset first among equal scores, cut
  to \<open>topN\<close>; each chunk with its final score.
\<close>

definition retrieve :: "retriever \<Rightarrow> string \<Rightarrow> nat \<Rightarrow> (Chunk \<times> real) list" where
  "retrieve r q topN =
     (let merged = merge_by_id (ranking (lexical_score r q) (candidate_width r) (corpus r))
                     (ranking (vector_score r q) (candidate_width r) (corpus r))
      in map (\<lambda>c. (c, final_score r q c))
           (take topN (sort_key (\<lambda>c. (- final_score r q c, offset c)) merged)))"

section \<open>Properties of the front end\<close>

subsection \<open>QueryInput\<close>

text \<open>
  C10. Whatever the input string, \<open>onSearch\<close> is called only when the trimmed string is
  not empty, from the click handler as from the Enter-key handler, and the argument of
  every such call is the original string, not the trimmed one. For a blank string neither
  handler touches the surroundings, whatever the callback, and the button is disabled.
\<close>

theorem QueryInput_onSearch_guard:
  "(a \<in> set (handleSearch record_call q []) \<or>
    a \<in> set (handleKeyPress record_call key q []) \<longrightarrow> trim q \<noteq> [] \<and> a = q)
   \<and> (trim q = [] \<longrightarrow>
        handleSearch onSearch q w = w \<and> handleKeyPress onSearch key q w = w
        \<and> button_disabled busy q)"
  by (simp add: handleSearch_def handleKeyPress_def button_disabled_def record_call_def
      truthy_def)

theorem QueryInput_onSearch_guard_witness:
  "handleSearch record_call [0x20, 0x41, 0x20] [] = [[0x20, 0x41, 0x20]]
   \<and> handleKeyPress record_call Enter [0x20, 0x41, 0x20] [] = [[0x20, 0x41, 0x20]]
   \<and> trim [0x20, 0x41, 0x20] \<noteq> []
   \<and> trim [0x20, 0x9] = []
   \<and> handleSearch record_call [0x20, 0x9] [] = []
   \<and> handleKeyPress record_call Enter [0x20, 0x9] [] = []
   \<and> button_disabled False [0x20, 0x9]"
  using QueryInput_onSearch_guard
      [of "[0x20, 0x41, 0x20]" "[0x20, 0x41, 0x20]" Enter record_call "[]" False]
    QueryInput_onSearch_guard [of "[]" "[0x20, 0x9]" Enter record_call "[]" False]
  by (simp add: handleSearch_def handleKeyPress_def button_disabled_def record_call_def
      truthy_def trim_def is_ws_def Enter_def)

subsection \<open>useSearchHistory\<close>

lemma take_filter_self:
  "filter (\<lambda>item. item \<noteq> q) (take n (filter (\<lambda>item. item \<noteq> q) xs)) =
   take n (filter (\<lambda>item. item \<noteq> q) xs)"
  by (rule filter_True) (auto dest: in_set_takeD)

lemma addToHistory_history:
  "history (addToHistory q st) = q # take 9 (filter (\<lambda>item. item \<noteq> q) (history st))"
  by (simp add: addToHistory_def MAX_HISTORY_def Let_def)

lemma length_filter_present:
  "q \<in> set xs \<Longrightarrow> Suc (length (filter (\<lambda>item. item \<noteq> q) xs)) \<le> length xs"
  using length_filter_less [of q xs "\<lambda>item. item \<noteq> q"] by simp

text \<open>
  C9, as the code has it. For every history list and every query, the new list starts
  with the query, holds the query exactly once, has at most \<open>MAX_HISTORY\<close> entries, does
  not grow when the query was already present, and adding the same query again changes
  nothing. Only the query is filtered out, so the new list is free of duplicates when
  the current one is.
\<close>

theorem addToHistory_properties:
  "hd (history (addToHistory q st)) = q
   \<and> history (addToHistory q st) \<noteq> []
   \<and> length (history (addToHistory q st)) \<le> MAX_HISTORY
   \<and> count_list (history (addToHistory q st)) q = 1
   \<and> (distinct (history st) \<longrightarrow> distinct (history (addToHistory q st)))
   \<and> (q \<in> set (history st) \<longrightarrow>
        length (history (addToHistory q st)) \<le> length (history st))
   \<and> addToHistory q (addToHistory q st) = addToHistory q st"
proof -
  let ?f = "filter (\<lambda>item. item \<noteq> q) (history st)"
  have h: "history (addToHistory q st) = q # take 9 ?f"
    by (rule addToHistory_history)
  have notin: "q \<notin> set (take 9 ?f)"
    by (auto dest: in_set_takeD)
  have c: "count_list (q # take 9 ?f) q = 1"
    using notin by (simp add: count_list_0_iff)
  have d: "distinct (history st) \<Longrightarrow> distinct (q # take 9 ?f)"
    using notin by (simp add: distinct_take)
  have l: "q \<in> set (history st) \<Longrightarrow> length (q # take 9 ?f) \<le> length (history st)"
    using length_filter_present [of q "history st"] by simp
  have i: "addToHistory q (addToHistory q st) = addToHistory q st"
    by (simp add: addToHistory_def MAX_HISTORY_def Let_def take_filter_self)
  show ?thesis
    using c d l i by (simp add: h MAX_HISTORY_def)
qed

theorem addToHistory_properties_witness:
  "distinct (history \<lparr>history = [[0x61], [0x62]], saved = None\<rparr>)
   \<and> [0x62] \<in> set (history \<lparr>history = [[0x61], [0x62]], saved = None\<rparr>)
   \<and> history (addToHistory [0x62] \<lparr>history = [[0x61], [0x62]], saved = None\<rparr>) =
       [[0x62], [0x61]]
   \<and> distinct (history (addToHistory [0x62] \<lparr>history = [[0x61], [0x62]], saved = None\<rparr>))
   \<and> length (history (addToHistory [0x62] \<lparr>history = [[0x61], [0x62]], saved = None\<rparr>)) \<le> 2"
  using addToHistory_properties [of "[0x62]" "\<lparr>history = [[0x61], [0x62]], saved = None\<rparr>"]
  by (simp add: addToHistory_def MAX_HISTORY_def Let_def)

text \<open>
  C9 as stated fails: a history that already holds an entry twice (the list read back
  from \<open>localStorage\<close> is taken as it is) keeps both copies when another query is added.
\<close>

theorem addToHistory_duplicates_counterexample:
  "\<not> distinct (history (addToHistory [0x62]
        \<lparr>history = [[0x61], [0x61]], saved = Some [[0x61], [0x61]]\<rparr>))"
  by (simp add: addToHistory_def MAX_HISTORY_def Let_def)

subsection \<open>useSearchResults\<close>

text \<open>
  C8, as the code has it. After every call of \<open>search\<close> that completes with no other call
  updating the state in between, \<open>loading\<close> is false and exactly one of two outcomes
  holds: the request succeeded, \<open>error\<close> is \<open>null\<close> and \<open>results\<close> is what the response
  carried; or the request failed (rejected fetch, status not ok, rejected or unusable
  body), \<open>error\<close> holds the message of the failure and \<open>results\<close> is empty, whatever it
  held before. When calls overlap, the end of a call still sets \<open>loading\<close> to false, and
  sets \<open>results\<close> from its response on success, or \<open>error\<close> to its message and \<open>results\<close>
  to the empty list on failure; but on success it leaves \<open>error\<close> as it finds it. After
  a status that is not ok the message is the fixed prefix followed by the status, which
  is never the empty text.
\<close>

theorem search_outcome:
  "(\<not> loading (search api q st)
    \<and> ((request_succeeded (api q) \<and> search_state.error (search api q st) = None
          \<and> results (search api q st) = response_results (api q))
         \<or> (\<not> request_succeeded (api q)
             \<and> (\<exists>t. try_block (api q) = Inl t
                    \<and> search_state.error (search api q st) = Some (catch_message t))
             \<and> results (search api q st) = [])))
   \<and> (\<not> loading (search_end outcome st')
       \<and> (request_succeeded outcome \<longrightarrow>
             results (search_end outcome st') = response_results outcome
             \<and> search_state.error (search_end outcome st') = search_state.error st')
       \<and> (\<not> request_succeeded outcome \<longrightarrow>
             (\<exists>t. try_block outcome = Inl t
                  \<and> search_state.error (search_end outcome st') = Some (catch_message t))
             \<and> results (search_end outcome st') = []))
   \<and> (api q = Response False status body \<longrightarrow>
         search_state.error (search api q st) = Some (server_error_message status)
         \<and> server_error_message status \<noteq> [])"
proof -
  have ended: "\<not> loading (search_end o' st')
       \<and> (request_succeeded o' \<longrightarrow>
             results (search_end o' st') = response_results o'
             \<and> search_state.error (search_end o' st') = search_state.error st')
       \<and> (\<not> request_succeeded o' \<longrightarrow>
             (\<exists>t. try_block o' = Inl t
                  \<and> search_state.error (search_end o' st') = Some (catch_message t))
             \<and> results (search_end o' st') = [])" for o' st'
  proof (cases o')
    case (FetchRejected t)
    then show ?thesis
      by (simp add: search_end_def Let_def)
  next
    case (Response ok status' body')
    show ?thesis
    proof (cases ok)
      case False
      with Response show ?thesis
        by (simp add: search_end_def Let_def)
    next
      case True
      with Response show ?thesis
        by (auto simp: search_end_def response_results_def Let_def
            split: json_outcome.splits json_data.splits option.splits)
    qed
  qed
  have begun: "search_state.error (search_begin st) = None"
    by (simp add: search_begin_def Let_def)
  have alone: "\<not> loading (search api q st)
    \<and> ((request_succeeded (api q) \<and> search_state.error (search api q st) = None
          \<and> results (search api q st) = response_results (api q))
         \<or> (\<not> request_succeeded (api q)
             \<and> (\<exists>t. try_block (api q) = Inl t
                    \<and> search_state.error (search api q st) = Some (catch_message t))
             \<and> results (search api q st) = []))"
    using ended [of "api q" "search_begin st"] begun
    by (cases "request_succeeded (api q)") (simp_all add: search_def)
  have server: "api q = Response False status body \<longrightarrow>
         search_state.error (search api q st) = Some (server_error_message status)
         \<and> server_error_message status \<noteq> []"
    by (simp add: search_def search_end_def server_error_message_def catch_message_def Let_def)
  show ?thesis
    using alone ended [of outcome "st'"] server by blast
qed

theorem search_outcome_witness:
  "search (\<lambda>q. Response False 503 (JsonResolved (Data None))) [0x33, 0x33, 0x30]
        \<lparr>results = [\<lparr>res_id = [0x31], title = [0x54], res_type = norm, description = None,
                     source = None, date = None, number = None\<rparr>],
         loading = False, search_state.error = None\<rparr>
      = \<lparr>results = [], loading = False,
         search_state.error =
           Some [0x41E, 0x448, 0x438, 0x431, 0x43A, 0x430, 0x20, 0x441, 0x435, 0x440,
                 0x432, 0x435, 0x440, 0x430, 0x3A, 0x20, 0x35, 0x30, 0x33]\<rparr>
   \<and> search (\<lambda>q. Response True 200 (JsonResolved (Data (Some
        [\<lparr>res_id = [0x32], title = [0x55], res_type = case_law, description = None,
          source = None, date = None, number = None\<rparr>])))) [0x33, 0x33, 0x30]
        \<lparr>results = [], loading = False, search_state.error = Some [0x78]\<rparr>
      = \<lparr>results = [\<lparr>res_id = [0x32], title = [0x55], res_type = case_law,
                     description = None, source = None, date = None, number = None\<rparr>],
         loading = False, search_state.error = None\<rparr>
   \<and> search_end (FetchRejected NonError)
        \<lparr>results = [\<lparr>res_id = [0x31], title = [0x54], res_type = norm, description = None,
                     source = None, date = None, number = None\<rparr>],
         loading = True, search_state.error = None\<rparr>
      = \<lparr>results = [], loading = False,
         search_state.error =
           Some [0x41F, 0x440, 0x43E, 0x438, 0x437, 0x43E, 0x448, 0x43B, 0x430, 0x20,
                 0x43E, 0x448, 0x438, 0x431, 0x43A, 0x430]\<rparr>"
  using search_outcome [of "\<lambda>q. Response False 503 (JsonResolved (Data None))"
      "[0x33, 0x33, 0x30]"
      "\<lparr>results = [\<lparr>res_id = [0x31], title = [0x54], res_type = norm, description = None,
                     source = None, date = None, number = None\<rparr>],
        loading = False, search_state.error = None\<rparr>"
      "FetchRejected NonError"
      "\<lparr>results = [\<lparr>res_id = [0x31], title = [0x54], res_type = norm, description = None,
                     source = None, date = None, number = None\<rparr>],
         loading = True, search_state.error = None\<rparr>" 503 "JsonResolved (Data None)"]
    search_outcome [of "\<lambda>q. Response True 200 (JsonResolved (Data (Some
        [\<lparr>res_id = [0x32], title = [0x55], res_type = case_law, description = None,
          source = None, date = None, number = None\<rparr>])))"
      "[0x33, 0x33, 0x30]"
      "\<lparr>results = [], loading = False, search_state.error = Some [0x78]\<rparr>"]
  by (simp add: search_def search_begin_def search_end_def catch_message_def
      response_results_def server_error_message_def generic_error_message_def Let_def)

text \<open>
  C8 as stated fails when calls overlap. A search for \<open>a\<close> starts, a search for \<open>b\<close> starts
  (from the history sidebar), the search for \<open>b\<close> ends with status 503, and then the
  search for \<open>a\<close> ends with a result: the call for \<open>a\<close> has completed and succeeded, its
  result is shown, and \<open>error\<close> still holds the message of the other call.
\<close>

theorem search_overlap_counterexample:
  "request_succeeded
     ((\<lambda>q. if q = [0x61]
           then Response True 200 (JsonResolved (Data (Some
                  [\<lparr>res_id = [0x32], title = [0x55], res_type = case_law,
                    description = None, source = None, date = None, number = None\<rparr>])))
           else Response False 503 (JsonRejected NonError)) [0x61])
   \<and> play (\<lambda>q. if q = [0x61]
           then Response True 200 (JsonResolved (Data (Some
                  [\<lparr>res_id = [0x32], title = [0x55], res_type = case_law,
                    description = None, source = None, date = None, number = None\<rparr>])))
           else Response False 503 (JsonRejected NonError))
        [Started [0x61], Started [0x62], Settled [0x62], Settled [0x61]]
        \<lparr>results = [], loading = False, search_state.error = None\<rparr>
      = \<lparr>results = [\<lparr>res_id = [0x32], title = [0x55], res_type = case_law,
                     description = None, source = None, date = None, number = None\<rparr>],
         loading = False,
         search_state.error =
           Some [0x41E, 0x448, 0x438, 0x431, 0x43A, 0x430, 0x20, 0x441, 0x435, 0x440,
                 0x432, 0x435, 0x440, 0x430, 0x3A, 0x20, 0x35, 0x30, 0x33]\<rparr>"
  by (simp add: search_begin_def search_end_def catch_message_def server_error_message_def
      Let_def)

section \<open>Properties of the case-law search\<close>

lemmas search_cases_defs =
  search_cases_def search_sudact_block_def search_rospravosud_block_def request_def Let_def

text \<open>
  C3, at the failing input: kad.arbitr.ru and sudact.ru raise, rospravosudie.com finds
  one document. All three sites are asked in priority order and nothing is raised, but
  the document found by the third site is dropped: the node returns the empty list.
\<close>

theorem search_cases_third_source_dropped:
  "search_cases
     \<lparr>kad = Inl (Exception ''timeout''), sudact = Inl (Exception ''403''),
      rospravosud = Inr [SiteDoc ''Decision 1'' ''/doc/1'' ''2024-01-01'']\<rparr>
     \<lparr>cache = Map.empty, requests = []\<rparr>
   = ([], \<lparr>cache = Map.empty, requests = [kad_arbitr_ru, sudact_ru, rospravosudie_com]\<rparr>)"
  by (simp add: search_cases_defs)

text \<open>
  The sites are asked in the order of \<open>SOURCES_PRIORITY\<close>, each at most once, and the
  search stops asking at some point of that list.
\<close>

lemma search_cases_priority_order:
  "\<exists>k. requests (snd (search_cases env w)) = requests w @ take k SOURCES_PRIORITY"
proof -
  have "requests (snd (search_cases env w)) = requests w @ take 1 SOURCES_PRIORITY
      \<or> requests (snd (search_cases env w)) = requests w @ take 2 SOURCES_PRIORITY
      \<or> requests (snd (search_cases env w)) = requests w @ take 3 SOURCES_PRIORITY"
    by (simp add: search_cases_defs SOURCES_PRIORITY_def split: sum.splits)
  then show ?thesis by blast
qed

text \<open>
  A first or second site that answers with matches ends the search with its matches.
\<close>

lemma search_cases_first_two:
  "(kad env = Inr cs \<and> cs \<noteq> [] \<longrightarrow> search_cases env w = (cs, request kad_arbitr_ru w))
   \<and> ((kad env = Inr [] \<or> isl (kad env)) \<and> sudact env = Inr cs \<and> cs \<noteq> [] \<longrightarrow>
        search_cases env w = (cs, request sudact_ru (request kad_arbitr_ru w)))"
  by (auto simp: search_cases_def search_sudact_block_def Let_def split: sum.splits)

text \<open>The answer of the third site never reaches the result.\<close>

lemma search_cases_ignores_rospravosud:
  "search_cases (env\<lparr>rospravosud := x\<rparr>) w = search_cases env w"
  by (simp add: search_cases_defs split: sum.splits)

lemmas KadParser_defs =
  KadParser_search_cases_def search_and_store_def get_cached_result_def redis_get_def
  cache_search_result_def setex_def cache_key_def request_def DEFAULT_TTL_def Let_def

text \<open>
  C4 as stated fails. A query for which the site found nothing leaves an entry under its
  key, holding the empty list; ten seconds later that entry has not expired, and the
  same query asks the site again. And the key is not normalised: after a search for
  \<open>q\<close> stored a case, the query \<open>q\<close> followed by a blank asks the site again.
\<close>

theorem KadParser_search_cases_cache_counterexample:
  "cache (snd (KadParser_search_cases (\<lambda>q. Inr []) ''q'' 0 2
        \<lparr>cache = Map.empty, requests = []\<rparr>)) (cache_key ''q'') = Some (3602, [])
   \<and> get_cached_result ''q'' 10
        (cache (snd (KadParser_search_cases (\<lambda>q. Inr []) ''q'' 0 2
           \<lparr>cache = Map.empty, requests = []\<rparr>))) = Some []
   \<and> requests (snd (KadParser_search_cases (\<lambda>q. Inr []) ''q'' 10 2
        (snd (KadParser_search_cases (\<lambda>q. Inr []) ''q'' 0 2
           \<lparr>cache = Map.empty, requests = []\<rparr>))))
      = [kad_arbitr_ru, kad_arbitr_ru]
   \<and> requests (snd (KadParser_search_cases
         (\<lambda>q. Inr [KadCase ''A40-1/2024'' ''AS Moscow'' [''A'', ''B''] ''s'']) ''q '' 10 2
        (snd (KadParser_search_cases
           (\<lambda>q. Inr [KadCase ''A40-1/2024'' ''AS Moscow'' [''A'', ''B''] ''s'']) ''q'' 0 2
           \<lparr>cache = Map.empty, requests = []\<rparr>))))
      = [kad_arbitr_ru, kad_arbitr_ru]"
  by (simp add: KadParser_defs)

lemma cache_key_inj: "cache_key q = cache_key q' \<longleftrightarrow> q = q'"
  by (simp add: cache_key_def)

lemma KadParser_hit:
  assumes "get_cached_result q now (cache w) = Some cs" and "cs \<noteq> []"
  shows "KadParser_search_cases site q now took w = (Inr cs, w)"
  using assms by (simp add: KadParser_search_cases_def)

lemma KadParser_miss:
  assumes "get_cached_result q now (cache w) = None \<or> get_cached_result q now (cache w) = Some []"
  shows "KadParser_search_cases site q now took w = search_and_store site q now took w"
  using assms by (auto simp: KadParser_search_cases_def)

lemma search_and_store_found:
  assumes "site q = Inr found"
  shows "search_and_store site q now took w =
    (Inr found, \<lparr>cache = (cache w)(cache_key q \<mapsto> (now + took + 3600, found)),
                 requests = requests w @ [kad_arbitr_ru]\<rparr>)"
  using assms
  by (simp add: search_and_store_def cache_search_result_def setex_def request_def
      DEFAULT_TTL_def Let_def)

lemma search_and_store_raised:
  assumes "site q = Inl e"
  shows "search_and_store site q now took w =
    (Inl e, \<lparr>cache = cache w, requests = requests w @ [kad_arbitr_ru]\<rparr>)"
  using assms by (simp add: search_and_store_def request_def Let_def)

lemma get_cached_after_store:
  assumes "later < expires"
  shows "get_cached_result q later (c(cache_key q \<mapsto> (expires, found))) = Some found"
  using assms by (simp add: get_cached_result_def redis_get_def)

text \<open>
  C4, as the code has it. The key of a query is \<open>search:\<close> followed by the query as it
  is given, so different queries never share an entry. When the key holds a non-expired,
  non-empty list, \<open>KadParser.search_cases\<close> returns it and asks no site: the surroundings
  are unchanged. An entry that holds the empty list counts as a miss, like no entry. On
  a miss the site is asked once: the list it returns, empty or not, is returned and
  stored under the key until 3600 seconds after the moment of the store; when the site
  raises, the exception is raised and nothing is stored. The same query at any second
  before the entry expires, whatever the site would answer then, is served from the
  store without a request when the stored list is not empty, and asks the site again
  when it is empty.
\<close>

theorem KadParser_search_cases_cache:
  "(cache_key q = cache_key q' \<longleftrightarrow> q = q')
   \<and> (get_cached_result q now (cache w) = Some cs \<and> cs \<noteq> [] \<longrightarrow>
        KadParser_search_cases site q now took w = (Inr cs, w))
   \<and> (get_cached_result q now (cache w) = None \<or> get_cached_result q now (cache w) = Some []
        \<longrightarrow>
        (site q = Inl e \<longrightarrow>
           KadParser_search_cases site q now took w =
             (Inl e, \<lparr>cache = cache w, requests = requests w @ [kad_arbitr_ru]\<rparr>))
        \<and> (site q = Inr found \<longrightarrow>
             KadParser_search_cases site q now took w =
               (Inr found,
                \<lparr>cache = (cache w)(cache_key q \<mapsto> (now + took + 3600, found)),
                 requests = requests w @ [kad_arbitr_ru]\<rparr>)
             \<and> (later < now + took + 3600 \<and> found \<noteq> [] \<longrightarrow>
                  KadParser_search_cases site' q later took'
                    (snd (KadParser_search_cases site q now took w)) =
                  (Inr found, snd (KadParser_search_cases site q now took w)))
             \<and> (later < now + took + 3600 \<and> found = [] \<longrightarrow>
                  requests (snd (KadParser_search_cases site' q later took'
                    (snd (KadParser_search_cases site q now took w)))) =
                  requests w @ [kad_arbitr_ru, kad_arbitr_ru])))"
proof (intro conjI impI)
  show "cache_key q = cache_key q' \<longleftrightarrow> q = q'"
    by (rule cache_key_inj)
next
  assume "get_cached_result q now (cache w) = Some cs \<and> cs \<noteq> []"
  then show "KadParser_search_cases site q now took w = (Inr cs, w)"
    by (simp add: KadParser_hit)
next
  assume m: "get_cached_result q now (cache w) = None
      \<or> get_cached_result q now (cache w) = Some []"
    and r: "site q = Inl e"
  show "KadParser_search_cases site q now took w =
      (Inl e, \<lparr>cache = cache w, requests = requests w @ [kad_arbitr_ru]\<rparr>)"
    using r by (simp add: KadParser_miss [OF m] search_and_store_raised)
next
  assume m: "get_cached_result q now (cache w) = None
      \<or> get_cached_result q now (cache w) = Some []"
    and f: "site q = Inr found"
  let ?w = "\<lparr>cache = (cache w)(cache_key q \<mapsto> (now + took + 3600, found)),
             requests = requests w @ [kad_arbitr_ru]\<rparr>"
  show first: "KadParser_search_cases site q now took w = (Inr found, ?w)"
    using f by (simp add: KadParser_miss [OF m] search_and_store_found)
  {
    assume l: "later < now + took + 3600 \<and> found \<noteq> []"
    then have "get_cached_result q later (cache ?w) = Some found"
      by (simp add: get_cached_after_store)
    with l show "KadParser_search_cases site' q later took'
          (snd (KadParser_search_cases site q now took w)) =
        (Inr found, snd (KadParser_search_cases site q now took w))"
      by (simp add: first KadParser_hit)
  }
  {
    assume l: "later < now + took + 3600 \<and> found = []"
    then have "get_cached_result q later (cache ?w) = Some []"
      by (simp add: get_cached_after_store)
    then have "KadParser_search_cases site' q later took' ?w =
        search_and_store site' q later took' ?w"
      by (simp add: KadParser_miss)
    then show "requests (snd (KadParser_search_cases site' q later took'
          (snd (KadParser_search_cases site q now took w)))) =
        requests w @ [kad_arbitr_ru, kad_arbitr_ru]"
      by (simp add: first search_and_store_def request_def Let_def split: sum.splits)
  }
qed

theorem KadParser_search_cases_cache_witness:
  "KadParser_search_cases
        (\<lambda>q. Inr [KadCase ''A40-1/2024'' ''AS Moscow'' [''A'', ''B''] ''s'']) ''q'' 3 2
        \<lparr>cache = Map.empty, requests = []\<rparr>
      = (Inr [KadCase ''A40-1/2024'' ''AS Moscow'' [''A'', ''B''] ''s''],
         \<lparr>cache = [''search:q'' \<mapsto>
                    (3605, [KadCase ''A40-1/2024'' ''AS Moscow'' [''A'', ''B''] ''s''])],
          requests = [kad_arbitr_ru]\<rparr>)
   \<and> KadParser_search_cases (\<lambda>q. Inl (Exception ''down'')) ''q'' 3604 2
        \<lparr>cache = [''search:q'' \<mapsto>
                    (3605, [KadCase ''A40-1/2024'' ''AS Moscow'' [''A'', ''B''] ''s''])],
          requests = [kad_arbitr_ru]\<rparr>
      = (Inr [KadCase ''A40-1/2024'' ''AS Moscow'' [''A'', ''B''] ''s''],
         \<lparr>cache = [''search:q'' \<mapsto>
                    (3605, [KadCase ''A40-1/2024'' ''AS Moscow'' [''A'', ''B''] ''s''])],
          requests = [kad_arbitr_ru]\<rparr>)
   \<and> KadParser_search_cases (\<lambda>q. Inl (Exception ''down'')) ''q'' 3605 2
        \<lparr>cache = [''search:q'' \<mapsto>
                    (3605, [KadCase ''A40-1/2024'' ''AS Moscow'' [''A'', ''B''] ''s''])],
          requests = [kad_arbitr_ru]\<rparr>
      = (Inl (Exception ''down''),
         \<lparr>cache = [''search:q'' \<mapsto>
                    (3605, [KadCase ''A40-1/2024'' ''AS Moscow'' [''A'', ''B''] ''s''])],
          requests = [kad_arbitr_ru, kad_arbitr_ru]\<rparr>)"
  using KadParser_search_cases_cache [where q = "''q''" and q' = "''q''" and now = 3
      and took = 2
      and w = "\<lparr>cache = Map.empty, requests = []\<rparr>"
      and site = "\<lambda>q. Inr [KadCase ''A40-1/2024'' ''AS Moscow'' [''A'', ''B''] ''s'']"
      and found = "[KadCase ''A40-1/2024'' ''AS Moscow'' [''A'', ''B''] ''s'']"
      and later = 3604 and took' = 2 and site' = "\<lambda>q. Inl (Exception ''down'')"]
    KadParser_search_cases_cache [where q = "''q''" and q' = "''q''" and now = 3604
      and took = 2
      and w = "\<lparr>cache = [''search:q'' \<mapsto>
                    (3605, [KadCase ''A40-1/2024'' ''AS Moscow'' [''A'', ''B''] ''s''])],
          requests = [kad_arbitr_ru]\<rparr>"
      and cs = "[KadCase ''A40-1/2024'' ''AS Moscow'' [''A'', ''B''] ''s'']"]
    KadParser_search_cases_cache [where q = "''q''" and q' = "''q''" and now = 3605
      and took = 2
      and w = "\<lparr>cache = [''search:q'' \<mapsto>
                    (3605, [KadCase ''A40-1/2024'' ''AS Moscow'' [''A'', ''B''] ''s''])],
          requests = [kad_arbitr_ru]\<rparr>"
      and site = "\<lambda>q. Inl (Exception ''down'')" and e = "Exception ''down''"]
  by (simp add: KadParser_defs)
section \<open>Properties of the language-model client\<close>

lemma calls_to_append: "calls_to name (xs @ ys) = calls_to name xs + calls_to name ys"
  by (induction name xs rule: calls_to.induct) simp_all

lemma calls_to_exhausted:
  "calls_to name (exhausted c p) = (if client_name c = name then 3 else 0)"
  by (simp add: exhausted_def)

lemma calls_to_exhausted_others:
  "name \<notin> client_name ` set cs \<Longrightarrow> calls_to name (concat (map (\<lambda>c. exhausted c p) cs)) = 0"
  by (induction cs) (auto simp: calls_to_append calls_to_exhausted)

lemma hd_exhausted: "hd (exhausted c p @ evs) = Call (client_name c) p (respond c p 0)"
  by (simp add: exhausted_def)

lemma client_generate_fails:
  assumes "fails_all c p"
  shows "client_generate c p seen = (Inl (projl (respond c p 2)), seen @ exhausted c p)"
proof -
  from assms obtain e0 e1 e2 where
    "respond c p 0 = Inl e0" "respond c p (Suc 0) = Inl e1" "respond c p 2 = Inl e2"
    by (auto simp: fails_all_def MAX_ATTEMPTS_def upt_conv_Cons numeral_2_eq_2 isl_def)
  then show ?thesis
    by (simp add: client_generate_def MAX_ATTEMPTS_def numeral_2_eq_2 post_def sleep_def
        exhausted_def)
qed

lemma client_generate_succeeds:
  assumes "succeeds c p"
  shows "\<exists>answer evs.
      client_generate c p seen = (Inr \<lparr>content = answer, provider = client_name c\<rparr>, seen @ evs)
      \<and> (\<exists>k<3. respond c p k = Inr answer)
      \<and> evs \<noteq> [] \<and> hd evs = Call (client_name c) p (respond c p 0)
      \<and> (\<forall>name. name \<noteq> client_name c \<longrightarrow> calls_to name evs = 0)"
proof (cases "respond c p 0")
  case (Inr a)
  have k: "\<exists>k<3. respond c p k = Inr a"
    using Inr by (intro exI [of _ 0]) simp
  have "client_generate c p seen =
      (Inr \<lparr>content = a, provider = client_name c\<rparr>, seen @ [Call (client_name c) p (Inr a)])"
    using Inr by (simp add: client_generate_def MAX_ATTEMPTS_def numeral_2_eq_2 post_def)
  with k Inr show ?thesis
    by (intro exI [of _ a] exI [of _ "[Call (client_name c) p (Inr a)]"]) simp
next
  case f0: (Inl e0)
  show ?thesis
  proof (cases "respond c p (Suc 0)")
    case (Inr a)
    have k: "\<exists>k<3. respond c p k = Inr a"
      using Inr by (intro exI [of _ "Suc 0"]) simp
    have "client_generate c p seen =
        (Inr \<lparr>content = a, provider = client_name c\<rparr>,
         seen @ [Call (client_name c) p (Inl e0), Sleep (backoff_base c),
                 Call (client_name c) p (Inr a)])"
      using f0 Inr
      by (simp add: client_generate_def MAX_ATTEMPTS_def numeral_2_eq_2 post_def sleep_def)
    with k f0 show ?thesis
      by (intro exI [of _ a]
          exI [of _ "[Call (client_name c) p (Inl e0), Sleep (backoff_base c),
                      Call (client_name c) p (Inr a)]"]) simp
  next
    case f1: (Inl e1)
    have "\<not> isl (respond c p 2)"
      using assms f0 f1
      by (simp add: succeeds_def MAX_ATTEMPTS_def upt_conv_Cons numeral_2_eq_2)
    then obtain a where a: "respond c p 2 = Inr a"
      by (cases "respond c p 2") simp_all
    have k: "\<exists>k<3. respond c p k = Inr a"
      using a by (intro exI [of _ 2]) simp
    have "client_generate c p seen =
        (Inr \<lparr>content = a, provider = client_name c\<rparr>,
         seen @ [Call (client_name c) p (Inl e0), Sleep (backoff_base c),
                 Call (client_name c) p (Inl e1), Sleep (2 * backoff_base c),
                 Call (client_name c) p (Inr a)])"
      using f0 f1 a
      by (simp add: client_generate_def MAX_ATTEMPTS_def numeral_2_eq_2 post_def sleep_def)
    with k f0 show ?thesis
      by (intro exI [of _ a]
          exI [of _ "[Call (client_name c) p (Inl e0), Sleep (backoff_base c),
                      Call (client_name c) p (Inl e1), Sleep (2 * backoff_base c),
                      Call (client_name c) p (Inr a)]"]) simp
  qed
qed

lemma try_providers_exhausted:
  assumes "\<forall>c \<in> set pre. fails_all c p"
  shows "try_providers (pre @ others) p failures seen =
    try_providers others p
      (failures @ map (\<lambda>c. (client_name c, projl (respond c p 2))) pre)
      (seen @ concat (map (\<lambda>c. exhausted c p) pre))"
  using assms
proof (induction pre arbitrary: failures seen)
  case Nil
  then show ?case by simp
next
  case (Cons c pre)
  then have "fails_all c p" and "\<forall>c \<in> set pre. fails_all c p"
    by simp_all
  with Cons.IH show ?case
    by (simp add: client_generate_fails)
qed


text \<open>
  C1. For every prompt and every ordered list of providers: when the primary provider
  fails all its attempts, the providers after it up to some later one fail all theirs,
  and that later provider answers within its attempts, \<open>generate\<close> with \<open>useFallback\<close>
  returns a response whose \<open>provider\<close> is the name of that provider and whose content is
  an answer of its backend. Before the failover the backend of the primary provider was
  asked exactly three times, with a wait of one backoff base and a wait of two between
  the requests: these are the first things that happen, what follows starts with the
  first request to the next provider in the list, and, when no later provider carries
  the name of the primary one, holds no further request to it.
\<close>

theorem generate_failover:
  assumes "fails_all primary p" and "\<forall>c \<in> set mid. fails_all c p" and "succeeds backup p"
  shows "\<exists>answer tail.
      generate (primary # mid @ backup # rest) p True seen =
        (Inr \<lparr>content = answer, provider = client_name backup\<rparr>,
         seen @ [Call (client_name primary) p (respond primary p 0),
                 Sleep (backoff_base primary),
                 Call (client_name primary) p (respond primary p 1),
                 Sleep (2 * backoff_base primary),
                 Call (client_name primary) p (respond primary p 2)] @ tail)
      \<and> (\<exists>k<3. respond backup p k = Inr answer)
      \<and> tail \<noteq> []
      \<and> hd tail = Call (client_name (hd (mid @ [backup]))) p (respond (hd (mid @ [backup])) p 0)
      \<and> (client_name primary \<notin> client_name ` set (mid @ [backup]) \<longrightarrow>
           calls_to (client_name primary) tail = 0)"
proof -
  from client_generate_succeeds [OF assms(3), of "seen @ exhausted primary p @ concat (map (\<lambda>c. exhausted c p) mid)"]
  obtain answer evs where
    g: "client_generate backup p (seen @ exhausted primary p @ concat (map (\<lambda>c. exhausted c p) mid)) =
        (Inr \<lparr>content = answer, provider = client_name backup\<rparr>,
         (seen @ exhausted primary p @ concat (map (\<lambda>c. exhausted c p) mid)) @ evs)"
    and k: "\<exists>k<3. respond backup p k = Inr answer"
    and ne: "evs \<noteq> []"
    and h: "hd evs = Call (client_name backup) p (respond backup p 0)"
    and o: "\<forall>name. name \<noteq> client_name backup \<longrightarrow> calls_to name evs = 0"
    by blast
  let ?tail = "concat (map (\<lambda>c. exhausted c p) mid) @ evs"
  have all: "\<forall>c \<in> set (primary # mid). fails_all c p"
    using assms by simp
  have "generate (primary # mid @ backup # rest) p True seen =
      try_providers ((primary # mid) @ backup # rest) p [] seen"
    by (simp add: generate_def)
  also have "\<dots> = try_providers (backup # rest) p
      ([] @ map (\<lambda>c. (client_name c, projl (respond c p 2))) (primary # mid))
      (seen @ concat (map (\<lambda>c. exhausted c p) (primary # mid)))"
    by (rule try_providers_exhausted [OF all])
  also have "\<dots> = (Inr \<lparr>content = answer, provider = client_name backup\<rparr>,
         seen @ exhausted primary p @ ?tail)"
    using g by simp
  finally have r: "generate (primary # mid @ backup # rest) p True seen =
        (Inr \<lparr>content = answer, provider = client_name backup\<rparr>,
         seen @ [Call (client_name primary) p (respond primary p 0),
                 Sleep (backoff_base primary),
                 Call (client_name primary) p (respond primary p 1),
                 Sleep (2 * backoff_base primary),
                 Call (client_name primary) p (respond primary p 2)] @ ?tail)"
    by (simp add: exhausted_def)
  have hd: "hd ?tail = Call (client_name (hd (mid @ [backup]))) p (respond (hd (mid @ [backup])) p 0)"
  proof (cases mid)
    case Nil
    with h show ?thesis by simp
  next
    case (Cons m ms)
    then show ?thesis by (simp add: exhausted_def)
  qed
  have cnt: "client_name primary \<notin> client_name ` set (mid @ [backup]) \<longrightarrow>
           calls_to (client_name primary) ?tail = 0"
    using o by (auto simp: calls_to_append calls_to_exhausted_others)
  show ?thesis
    using r k ne hd cnt by (intro exI [of _ answer] exI [of _ ?tail]) simp
qed

text \<open>
  C2. For every prompt and every ordered list of providers: when every provider fails
  all its attempts, \<open>generate\<close> fails with one error that lists, in the order of the
  providers, every provider by name with its last failure, the failure of its third
  request; every backend was asked three times.
\<close>

theorem generate_exhausted:
  assumes "\<forall>c \<in> set providers. fails_all c p"
  shows "\<exists>reasons.
      generate providers p True seen =
        (Inl (ProviderUnavailable reasons),
         seen @ concat (map (\<lambda>c. [Call (client_name c) p (respond c p 0),
                                  Sleep (backoff_base c),
                                  Call (client_name c) p (respond c p 1),
                                  Sleep (2 * backoff_base c),
                                  Call (client_name c) p (respond c p 2)]) providers))
      \<and> list_all2 (\<lambda>c (name, e). name = client_name c \<and> respond c p 2 = Inl e)
           providers reasons"
proof -
  let ?reasons = "map (\<lambda>c. (client_name c, projl (respond c p 2))) providers"
  have "generate providers p True seen = try_providers (providers @ []) p [] seen"
    by (simp add: generate_def)
  also have "\<dots> = try_providers [] p ([] @ ?reasons)
      (seen @ concat (map (\<lambda>c. exhausted c p) providers))"
    by (rule try_providers_exhausted [OF assms])
  also have "\<dots> = (Inl (ProviderUnavailable ?reasons),
      seen @ concat (map (\<lambda>c. exhausted c p) providers))"
    by simp
  finally have r: "generate providers p True seen =
      (Inl (ProviderUnavailable ?reasons),
       seen @ concat (map (\<lambda>c. [Call (client_name c) p (respond c p 0),
                                  Sleep (backoff_base c),
                                  Call (client_name c) p (respond c p 1),
                                  Sleep (2 * backoff_base c),
                                  Call (client_name c) p (respond c p 2)]) providers))"
    by (simp add: exhausted_def [abs_def])
  have "isl (respond c p 2)" if "c \<in> set providers" for c
    using assms that by (auto simp: fails_all_def MAX_ATTEMPTS_def list_all_iff)
  then have "list_all2 (\<lambda>c (name, e). name = client_name c \<and> respond c p 2 = Inl e)
           providers ?reasons"
    by (auto simp: list_all2_conv_all_nth isl_def)
  with r show ?thesis by blast
qed


lemmas generate_defs =
  generate_def client_generate_def post_def sleep_def MAX_ATTEMPTS_def fails_all_def
  succeeds_def numeral_2_eq_2 upt_conv_Cons

theorem generate_failover_witness:
  "generate
     [\<lparr>client_name = ''openrouter'', backoff_base = 1, respond = (\<lambda>p k. Inl (Exception ''timeout''))\<rparr>,
      \<lparr>client_name = ''perplexity'', backoff_base = 2, respond = (\<lambda>p k. if k = 0 then Inl (Exception ''429'') else Inr (''re: '' @ p))\<rparr>] ''Q'' True []
   = (Inr \<lparr>content = ''re: Q'', provider = ''perplexity''\<rparr>,
      [Call ''openrouter'' ''Q'' (Inl (Exception ''timeout'')), Sleep 1,
       Call ''openrouter'' ''Q'' (Inl (Exception ''timeout'')), Sleep 2,
       Call ''openrouter'' ''Q'' (Inl (Exception ''timeout'')),
       Call ''perplexity'' ''Q'' (Inl (Exception ''429'')), Sleep 2,
       Call ''perplexity'' ''Q'' (Inr ''re: Q'')])
   \<and> generate
     [\<lparr>client_name = ''openrouter'', backoff_base = 1, respond = (\<lambda>p k. Inl (Exception ''timeout''))\<rparr>,
      \<lparr>client_name = ''perplexity'', backoff_base = 2, respond = (\<lambda>p k. Inl (Exception ''401''))\<rparr>,
      \<lparr>client_name = ''third'', backoff_base = 1, respond = (\<lambda>p k. Inr (''3: '' @ p))\<rparr>] ''Q'' True []
   = (Inr \<lparr>content = ''3: Q'', provider = ''third''\<rparr>,
      [Call ''openrouter'' ''Q'' (Inl (Exception ''timeout'')), Sleep 1,
       Call ''openrouter'' ''Q'' (Inl (Exception ''timeout'')), Sleep 2,
       Call ''openrouter'' ''Q'' (Inl (Exception ''timeout'')),
       Call ''perplexity'' ''Q'' (Inl (Exception ''401'')), Sleep 2,
       Call ''perplexity'' ''Q'' (Inl (Exception ''401'')), Sleep 4,
       Call ''perplexity'' ''Q'' (Inl (Exception ''401'')),
       Call ''third'' ''Q'' (Inr ''3: Q'')])"
  using generate_failover [of
      "\<lparr>client_name = ''openrouter'', backoff_base = 1, respond = (\<lambda>p k. Inl (Exception ''timeout''))\<rparr>" "''Q''" "[]"
      "\<lparr>client_name = ''perplexity'', backoff_base = 2, respond = (\<lambda>p k. if k = 0 then Inl (Exception ''429'') else Inr (''re: '' @ p))\<rparr>" "[]" "[]"]
    generate_failover [of
      "\<lparr>client_name = ''openrouter'', backoff_base = 1, respond = (\<lambda>p k. Inl (Exception ''timeout''))\<rparr>" "''Q''"
      "[\<lparr>client_name = ''perplexity'', backoff_base = 2, respond = (\<lambda>p k. Inl (Exception ''401''))\<rparr>]"
      "\<lparr>client_name = ''third'', backoff_base = 1, respond = (\<lambda>p k. Inr (''3: '' @ p))\<rparr>" "[]" "[]"]
  by (simp add: generate_defs)

theorem generate_exhausted_witness:
  "generate
     [\<lparr>client_name = ''openrouter'', backoff_base = 1, respond = (\<lambda>p k. Inl (Exception ''timeout''))\<rparr>,
      \<lparr>client_name = ''perplexity'', backoff_base = 2, respond = (\<lambda>p k. Inl (Exception ''401''))\<rparr>] ''Q'' True []
   = (Inl (ProviderUnavailable
            [(''openrouter'', Exception ''timeout''), (''perplexity'', Exception ''401'')]),
      [Call ''openrouter'' ''Q'' (Inl (Exception ''timeout'')), Sleep 1,
       Call ''openrouter'' ''Q'' (Inl (Exception ''timeout'')), Sleep 2,
       Call ''openrouter'' ''Q'' (Inl (Exception ''timeout'')),
       Call ''perplexity'' ''Q'' (Inl (Exception ''401'')), Sleep 2,
       Call ''perplexity'' ''Q'' (Inl (Exception ''401'')), Sleep 4,
       Call ''perplexity'' ''Q'' (Inl (Exception ''401''))])"
  using generate_exhausted [of
      "[\<lparr>client_name = ''openrouter'', backoff_base = 1, respond = (\<lambda>p k. Inl (Exception ''timeout''))\<rparr>,
        \<lparr>client_name = ''perplexity'', backoff_base = 2, respond = (\<lambda>p k. Inl (Exception ''401''))\<rparr>]" "''Q''" "[]"]
  by (simp add: generate_defs)

section \<open>Properties of the workflow\<close>

subsection \<open>The trace\<close>










lemma search_cases_node_trace: "trace (fst (search_cases_node env w s)) = trace s"
  by (simp add: search_cases_node_def)

lemma search_cases_node_returns: "returns (search_cases_node env w)"
  by (simp add: returns_def search_cases_node_def)








subsection \<open>The run of the engine\<close>

lemma run_Nil: "run [] s = s"
  by (simp add: run_def)


lemma run_Cons: "run (st # stages) s = run stages (run_stage st s)"
  by (simp add: run_def)

text \<open>
  As long as no stage raises, the engine of the spec and the documented invocation of
  the graph yield the same state.
\<close>

lemma run_agrees:
  "snd (invoke_until_raise (map snd stages) s) = None \<Longrightarrow>
   run stages s = fst (invoke_until_raise (map snd stages) s)"
proof (induction stages arbitrary: s)
  case Nil
  then show ?case by (simp add: run_Nil)
next
  case (Cons st stages)
  obtain s1 r where f: "snd st s = (s1, r)" by (cases "snd st s")
  show ?case
  proof (cases r)
    case None
    with Cons f show ?thesis
      by (simp add: run_Cons run_stage_def)
  next
    case (Some e)
    with Cons.prems f show ?thesis by simp
  qed
qed




section \<open>Properties of the hybrid retrieval\<close>

lemma length_ranking: "length (ranking score k chunks) = min k (length chunks)"
  by (simp add: ranking_def min.commute)

lemma ranking_all: "length chunks \<le> k \<Longrightarrow> mset (ranking score k chunks) = mset chunks"
  by (simp add: ranking_def)

lemma set_ranking: "set (ranking score k chunks) \<subseteq> set chunks"
  by (auto simp: ranking_def dest: in_set_takeD)

lemma merge_by_id_all:
  assumes "set ys \<subseteq> set xs"
  shows "merge_by_id xs ys = xs"
proof -
  have "filter (\<lambda>c. chunk_id c \<notin> set (map chunk_id xs)) ys = []"
    using assms by (auto simp: filter_empty_conv)
  then show ?thesis by (simp add: merge_by_id_def)
qed

lemma length_merge_by_id: "length xs \<le> length (merge_by_id xs ys)"
  by (simp add: merge_by_id_def)

lemma sorted_key_pairs:
  fixes f :: "Chunk \<Rightarrow> real"
  assumes "sorted (map (\<lambda>c. (- f c, offset c)) xs)"
  shows "sorted_wrt (\<lambda>a b. f b \<le> f a \<and> (f a = f b \<longrightarrow> offset a \<le> offset b)) xs"
proof -
  have "sorted_wrt (\<lambda>a b. (- f a, offset a) \<le> (- f b, offset b)) xs"
    using assms by (simp add: sorted_map)
  then show ?thesis
    by (rule sorted_wrt_mono_rel [rotated]) (auto simp: less_eq_prod_def)
qed

text \<open>
  C7. For every query and every \<open>topN\<close>, the result is sorted by descending final score,
  with the earlier offset first among equal scores, and has at most \<open>topN\<close> entries;
  with a candidate width above \<open>topN\<close> it has exactly \<open>topN\<close> entries when the corpus
  holds at least \<open>topN\<close> chunks, and otherwise holds every chunk of the corpus.
\<close>

theorem retrieve_top:
  "sorted_wrt (\<lambda>a b. snd b \<le> snd a \<and> (snd a = snd b \<longrightarrow> offset (fst a) \<le> offset (fst b)))
     (retrieve r q topN)
   \<and> length (retrieve r q topN) \<le> topN
   \<and> (topN < candidate_width r \<and> topN \<le> length (corpus r) \<longrightarrow>
        length (retrieve r q topN) = topN)
   \<and> (topN < candidate_width r \<and> length (corpus r) < topN \<longrightarrow>
        mset (map fst (retrieve r q topN)) = mset (corpus r))"
proof (intro conjI impI)
  let ?f = "final_score r q"
  let ?lex = "ranking (lexical_score r q) (candidate_width r) (corpus r)"
  let ?vec = "ranking (vector_score r q) (candidate_width r) (corpus r)"
  let ?sorted = "sort_key (\<lambda>c. (- ?f c, offset c)) (merge_by_id ?lex ?vec)"
  have r: "retrieve r q topN = map (\<lambda>c. (c, ?f c)) (take topN ?sorted)"
    by (simp add: retrieve_def)
  have "sorted (map (\<lambda>c. (- ?f c, offset c)) (take topN ?sorted))"
    by (simp add: take_map [symmetric] sorted_wrt_take)
  from sorted_key_pairs [OF this]
  show "sorted_wrt (\<lambda>a b. snd b \<le> snd a \<and> (snd a = snd b \<longrightarrow> offset (fst a) \<le> offset (fst b)))
     (retrieve r q topN)"
    by (simp add: r sorted_wrt_map)
  show "length (retrieve r q topN) \<le> topN"
    by (simp add: r)
  {
    assume a: "topN < candidate_width r \<and> topN \<le> length (corpus r)"
    then have "topN \<le> length ?lex"
      by (simp add: length_ranking)
    also have "\<dots> \<le> length (merge_by_id ?lex ?vec)"
      by (rule length_merge_by_id)
    finally show "length (retrieve r q topN) = topN"
      by (simp add: r)
  }
  {
    assume a: "topN < candidate_width r \<and> length (corpus r) < topN"
    then have l: "mset ?lex = mset (corpus r)"
      by (intro ranking_all) simp
    then have "set ?lex = set (corpus r)"
      by (rule mset_eq_setD)
    then have "set ?vec \<subseteq> set ?lex"
      using set_ranking [of "vector_score r q" "candidate_width r" "corpus r"] by simp
    then have m: "merge_by_id ?lex ?vec = ?lex"
      by (rule merge_by_id_all)
    have "length ?sorted \<le> topN"
      using a by (simp add: m length_ranking)
    then have "take topN ?sorted = ?sorted"
      by simp
    then show "mset (map fst (retrieve r q topN)) = mset (corpus r)"
      by (simp add: r m l comp_def)
  }
qed

lemmas retrieve_defs =
  retrieve_def final_score_def normalized_def ranking_def merge_by_id_def

theorem retrieve_top_witness:
  "map (\<lambda>(c, s). (chunk_id c, s))
     (retrieve
      \<lparr>corpus =
        [\<lparr>chunk_id = 1, chunk_text = ''a'', embeddingVector = [1, 0], sourceCode = ''GK'',
          articleNumber = Some ''329'', offset = 0\<rparr>,
         \<lparr>chunk_id = 2, chunk_text = ''b'', embeddingVector = [0, 1], sourceCode = ''GK'',
          articleNumber = Some ''330'', offset = 100\<rparr>,
         \<lparr>chunk_id = 3, chunk_text = ''c'', embeddingVector = [1, 1], sourceCode = ''GK'',
          articleNumber = None, offset = 200\<rparr>],
       lexical_score = (\<lambda>q c. if articleNumber c = Some q then 1 else 0),
       vector_score = (\<lambda>q c. 0),
       normalize = (\<lambda>xs x. x),
       weight_lexical = 1 / 2, weight_vector = 1 / 2, candidate_width = 6\<rparr>
      ''330'' 2) = [(2, 1 / 2), (1, 0)]
   \<and> map (\<lambda>(c, s). (chunk_id c, s))
     (retrieve
      \<lparr>corpus =
        [\<lparr>chunk_id = 1, chunk_text = ''a'', embeddingVector = [1, 0], sourceCode = ''GK'',
          articleNumber = Some ''329'', offset = 0\<rparr>,
         \<lparr>chunk_id = 2, chunk_text = ''b'', embeddingVector = [0, 1], sourceCode = ''GK'',
          articleNumber = Some ''330'', offset = 100\<rparr>,
         \<lparr>chunk_id = 3, chunk_text = ''c'', embeddingVector = [1, 1], sourceCode = ''GK'',
          articleNumber = None, offset = 200\<rparr>],
       lexical_score = (\<lambda>q c. if articleNumber c = Some q then 1 else 0),
       vector_score = (\<lambda>q c. 0),
       normalize = (\<lambda>xs x. x),
       weight_lexical = 1 / 2, weight_vector = 1 / 2, candidate_width = 6\<rparr>
      ''330'' 5) = [(2, 1 / 2), (1, 0), (3, 0)]"
  using retrieve_top [of
      "\<lparr>corpus =
        [\<lparr>chunk_id = 1, chunk_text = ''a'', embeddingVector = [1, 0], sourceCode = ''GK'',
          articleNumber = Some ''329'', offset = 0\<rparr>,
         \<lparr>chunk_id = 2, chunk_text = ''b'', embeddingVector = [0, 1], sourceCode = ''GK'',
          articleNumber = Some ''330'', offset = 100\<rparr>,
         \<lparr>chunk_id = 3, chunk_text = ''c'', embeddingVector = [1, 1], sourceCode = ''GK'',
          articleNumber = None, offset = 200\<rparr>],
       lexical_score = (\<lambda>q c. if articleNumber c = Some q then 1 else 0),
       vector_score = (\<lambda>q c. 0),
       normalize = (\<lambda>xs x. x),
       weight_lexical = 1 / 2, weight_vector = 1 / 2, candidate_width = 6\<rparr>" "''330''" 2]
    retrieve_top [of
      "\<lparr>corpus =
        [\<lparr>chunk_id = 1, chunk_text = ''a'', embeddingVector = [1, 0], sourceCode = ''GK'',
          articleNumber = Some ''329'', offset = 0\<rparr>,
         \<lparr>chunk_id = 2, chunk_text = ''b'', embeddingVector = [0, 1], sourceCode = ''GK'',
          articleNumber = Some ''330'', offset = 100\<rparr>,
         \<lparr>chunk_id = 3, chunk_text = ''c'', embeddingVector = [1, 1], sourceCode = ''GK'',
          articleNumber = None, offset = 200\<rparr>],
       lexical_score = (\<lambda>q c. if articleNumber c = Some q then 1 else 0),
       vector_score = (\<lambda>q c. 0),
       normalize = (\<lambda>xs x. x),
       weight_lexical = 1 / 2, weight_vector = 1 / 2, candidate_width = 6\<rparr>" "''330''" 5]
  by (simp add: retrieve_defs)

end
